theory Spec2Isabelle
  imports Complex_Main "HOL-Library.AList"
begin

section \<open>The location hook of src/hooks/useCustomLocation.ts\<close>

text \<open>
  The hook keeps one process-wide record of the most recent location, a process-wide
  reverse-geocode cache with a table of pending requests, and a process-wide FIFO lock;
  every hook instance (a consumer session) has its own React state and refs.
  JavaScript runs one task at a time, so each model function below is one uninterrupted
  run of the source between two \<^verbatim>\<open>await\<close>s; an async function is the sequence
  of these runs, and what a run reads from the outside (\<^verbatim>\<open>Date.now()\<close>, the abort flag
  of a signal, the outcome of a provider call) is an argument of the function.
  Times are integer milliseconds, as \<^verbatim>\<open>Date.now()\<close> returns them. A latitude, a
  longitude or a threshold is the real value of a finite double; the subtraction in
  \<^verbatim>\<open>hasSignificantChange\<close> rounds as IEEE 754 does, and the key of the geocode cache is
  computed exactly.
\<close>

subsection \<open>Data\<close>

record LocationObjectCoords =
  latitude :: real
  longitude :: real

text \<open>A geocoded address is opaque to the hook; it is represented by its printed form.\<close>

type_synonym LocationGeocodedAddress = string

record LocationObject =
  loc_coords :: LocationObjectCoords
  loc_timestamp :: int

record CachedLocation =
  coords :: LocationObjectCoords
  address :: "LocationGeocodedAddress option"
  timestamp :: int
  cacheTTL :: int

definition CACHE_TTL :: int where
  "CACHE_TTL = 5 * 60 * 1000"

text \<open>The double that the literal \<^verbatim>\<open>0.0001\<close> denotes.\<close>

definition SIGNIFICANT_CHANGE_THRESHOLD :: real where
  "SIGNIFICANT_CHANGE_THRESHOLD = 7378697629483821 / 2 ^ 66"

definition REVERSE_GEOCODE_CACHE_TTL :: int where
  "REVERSE_GEOCODE_CACHE_TTL = 10 * 60 * 1000"

definition CACHE_CLEANUP_THRESHOLD :: nat where
  "CACHE_CLEANUP_THRESHOLD = 50"

subsection \<open>The consumer session: React state and refs of one hook instance\<close>

datatype provider_call =
  RequestForegroundPermissions
  | GetLastKnownPosition
  | GetCurrentPositionInitial
  | GetCurrentPositionRefined

text \<open>
  \<open>st_coords\<close>, \<open>st_address\<close>, \<open>loading\<close> and \<open>error\<close> are the four \<^verbatim>\<open>useState\<close>
  cells the hook returns; the refs keep their names. An \<^verbatim>\<open>AbortController\<close> is a
  number, \<open>aborted\<close> is the set of controllers whose \<^verbatim>\<open>abort()\<close> has run, and
  \<open>calls\<close> logs the calls the session made to the location provider, oldest first.
\<close>

record session =
  st_coords :: "LocationObjectCoords option"
  st_address :: "LocationGeocodedAddress option"
  loading :: bool
  error :: "string option"
  isMountedRef :: bool
  isFetchingRef :: bool
  hasInitialFetchRef :: bool
  abortControllerRef :: "nat option"
  aborted :: "nat set"
  next_controller :: nat
  calls :: "provider_call list"

definition initial_session :: session where
  "initial_session =
     \<lparr>st_coords = None, st_address = None, loading = True, error = None,
      isMountedRef = True, isFetchingRef = False, hasInitialFetchRef = False,
      abortControllerRef = None, aborted = {}, next_controller = 0, calls = []\<rparr>"

definition shouldContinue :: "session \<Rightarrow> nat \<Rightarrow> bool" where
  "shouldContinue s signal \<longleftrightarrow> isMountedRef s \<and> signal \<notin> aborted s"

subsection \<open>The location cache\<close>

text \<open>
  \<^verbatim>\<open>updateLocation(location, geocodedAddress)\<close> of a session whose option
  \<^verbatim>\<open>cacheTTL\<close> is \<open>ttl\<close>, run when \<^verbatim>\<open>Date.now()\<close> is \<open>now\<close>. It returns the session
  and the global \<^verbatim>\<open>cachedLocation\<close>. The mirror to AsyncStorage is fire-and-forget and
  is left out.
\<close>

definition updateLocation ::
  "int \<Rightarrow> int \<Rightarrow> LocationObject \<Rightarrow> LocationGeocodedAddress option \<Rightarrow>
   session \<times> CachedLocation option \<Rightarrow> session \<times> CachedLocation option" where
  "updateLocation ttl now location geocodedAddress w =
     (case w of (s, cachedLocation) \<Rightarrow>
        if \<not> isMountedRef s then (s, cachedLocation)
        else if (case cachedLocation of None \<Rightarrow> False | Some c \<Rightarrow> now < timestamp c)
          then (s, cachedLocation)
        else (s\<lparr>st_coords := Some (loc_coords location), st_address := geocodedAddress\<rparr>,
              Some \<lparr>coords = loc_coords location, address = geocodedAddress,
                    timestamp = now, cacheTTL = ttl\<rparr>))"

text \<open>
  The other assignment to \<^verbatim>\<open>cachedLocation\<close>: the continuation of
  \<^verbatim>\<open>loadPersistedLocation()\<close> in the mount effect, which installs the persisted record
  only when there is none in memory.
\<close>

definition installPersisted ::
  "CachedLocation option \<Rightarrow> CachedLocation option \<Rightarrow> CachedLocation option" where
  "installPersisted persisted cachedLocation =
     (case persisted of
        None \<Rightarrow> cachedLocation
      | Some p \<Rightarrow> (case cachedLocation of None \<Rightarrow> Some p | Some c \<Rightarrow> Some c))"

text \<open>A write to the global record: by a session's \<^verbatim>\<open>updateLocation\<close>, or by the load.\<close>

datatype cache_write =
  Update session int int LocationObject "LocationGeocodedAddress option"
  | Persisted "CachedLocation option"

fun apply_write :: "cache_write \<Rightarrow> CachedLocation option \<Rightarrow> CachedLocation option" where
  "apply_write (Update s ttl now location a) c = snd (updateLocation ttl now location a (s, c))"
| "apply_write (Persisted p) c = installPersisted p c"

fun apply_writes :: "cache_write list \<Rightarrow> CachedLocation option \<Rightarrow> CachedLocation option" where
  "apply_writes [] c = c"
| "apply_writes (w # ws) c = apply_writes ws (apply_write w c)"

text \<open>
  \<^verbatim>\<open>isCacheValid()\<close> of a session whose option \<^verbatim>\<open>cacheTTL\<close> is \<open>ttl\<close>. The source
  takes \<^verbatim>\<open>cachedLocation.cacheTTL || cacheTTL\<close>: the stored number unless it is falsy,
  which for an integer means zero.
\<close>

definition isCacheValid :: "int \<Rightarrow> int \<Rightarrow> CachedLocation option \<Rightarrow> bool" where
  "isCacheValid ttl now cachedLocation =
     (case cachedLocation of
        None \<Rightarrow> False
      | Some c \<Rightarrow>
          (let effectiveTTL = (if cacheTTL c \<noteq> 0 then cacheTTL c else ttl)
           in now - timestamp c < effectiveTTL))"

text \<open>
  The validity check as the specification words it, for comparison:
  \<^verbatim>\<open>now - record.timestamp < (ttlOverride ?? record.ttl)\<close>.
\<close>

definition isValid_spec :: "int option \<Rightarrow> int \<Rightarrow> CachedLocation option \<Rightarrow> bool" where
  "isValid_spec ttlOverride now cachedLocation =
     (case cachedLocation of
        None \<Rightarrow> False
      | Some c \<Rightarrow>
          now - timestamp c < (case ttlOverride of Some t \<Rightarrow> t | None \<Rightarrow> cacheTTL c))"

subsection \<open>Subtraction of doubles\<close>






subsection \<open>Significant change\<close>


subsection \<open>The reverse-geocode cache and its pending requests\<close>

text \<open>
  \<^verbatim>\<open>Math.round\<close> rounds to the nearest integer, a half towards plus infinity.
  \<^verbatim>\<open>createCacheKey\<close> prints \<^verbatim>\<open>Math.round(x * 10000) / 10000\<close> for both axes into one
  string; the key is represented by the two rounded integers that the string prints.
\<close>

definition Math_round :: "real \<Rightarrow> int" where
  "Math_round x = \<lfloor>x + 1 / 2\<rfloor>"

type_synonym cache_key = "int \<times> int"

definition createCacheKey :: "LocationObjectCoords \<Rightarrow> cache_key" where
  "createCacheKey c = (Math_round (latitude c * 10000), Math_round (longitude c * 10000))"

record geocode_entry =
  geo_address :: "LocationGeocodedAddress option"
  geo_timestamp :: int

text \<open>
  The two JavaScript \<^verbatim>\<open>Map\<close>s are association lists in insertion order
  (\<open>AList.update\<close> is \<^verbatim>\<open>set\<close>, \<open>AList.delete\<close> is \<^verbatim>\<open>delete\<close>, \<open>map_of\<close> is \<^verbatim>\<open>get\<close>).
  A promise is a number. \<open>in_flight\<close> holds the request bodies suspended at
  \<^verbatim>\<open>await Location.reverseGeocodeAsync\<close>, each with its promise and its key;
  \<open>settled\<close> holds the value every settled request promise was resolved with;
  \<open>geocode_calls\<close> logs the coordinates sent to the provider, oldest first.
\<close>

record geocode_state =
  reverseGeocodeCache :: "(cache_key \<times> geocode_entry) list"
  pendingReverseGeocodeRequests :: "(cache_key \<times> nat) list"
  in_flight :: "(nat \<times> cache_key) list"
  settled :: "(nat \<times> LocationGeocodedAddress option) list"
  next_promise :: nat
  geocode_calls :: "LocationObjectCoords list"
  cleanupScheduled :: bool

definition initial_geocode_state :: geocode_state where
  "initial_geocode_state =
     \<lparr>reverseGeocodeCache = [], pendingReverseGeocodeRequests = [], in_flight = [],
      settled = [], next_promise = 0, geocode_calls = [], cleanupScheduled = False\<rparr>"

text \<open>\<^verbatim>\<open>cleanReverseGeocodeCache\<close>, run by the cleanup timer when \<^verbatim>\<open>Date.now()\<close> is \<open>now\<close>.\<close>

definition cleanReverseGeocodeCache :: "int \<Rightarrow> geocode_state \<Rightarrow> geocode_state" where
  "cleanReverseGeocodeCache now g =
     (if length (reverseGeocodeCache g) \<le> CACHE_CLEANUP_THRESHOLD then g
      else g\<lparr>reverseGeocodeCache :=
               filter (\<lambda>(key, v). \<not> now - geo_timestamp v > REVERSE_GEOCODE_CACHE_TTL)
                 (reverseGeocodeCache g)\<rparr>)"

definition scheduleCacheCleanup :: "geocode_state \<Rightarrow> geocode_state" where
  "scheduleCacheCleanup g = (if cleanupScheduled g then g else g\<lparr>cleanupScheduled := True\<rparr>)"

text \<open>The timer callback armed by \<^verbatim>\<open>scheduleCacheCleanup\<close>.\<close>

definition cleanup_timer :: "int \<Rightarrow> geocode_state \<Rightarrow> geocode_state" where
  "cleanup_timer now g = (cleanReverseGeocodeCache now g)\<lparr>cleanupScheduled := False\<rparr>"

datatype geocode_return =
  Value "LocationGeocodedAddress option"
  | Promise nat

text \<open>
  \<^verbatim>\<open>reverseGeocodeAsync(coords, signal)\<close> up to its return: \<open>sig_aborted\<close> is
  \<^verbatim>\<open>signal?.aborted\<close> (the same at each of the three reads, which no other task can
  separate) and \<open>now\<close> is \<^verbatim>\<open>Date.now()\<close>. A new request runs its body up to the
  \<^verbatim>\<open>await\<close>, where the provider has been called, and is registered as pending on return.
  Had the body returned at its own first abort check, its \<^verbatim>\<open>finally\<close> would have run
  before the registration. \<open>start_or_share\<close> is the part after the cache lookup.
\<close>

definition start_or_share ::
  "LocationObjectCoords \<Rightarrow> bool \<Rightarrow> geocode_state \<Rightarrow> geocode_return \<times> geocode_state" where
  "start_or_share c sig_aborted g =
     (let cacheKey = createCacheKey c
      in case map_of (pendingReverseGeocodeRequests g) cacheKey of
           Some pendingRequest \<Rightarrow>
             if sig_aborted then (Value None, g) else (Promise pendingRequest, g)
         | None \<Rightarrow>
             let requestPromise = next_promise g
             in if sig_aborted
                then (Promise requestPromise,
                      g\<lparr>settled := settled g @ [(requestPromise, None)],
                        pendingReverseGeocodeRequests :=
                          AList.update cacheKey requestPromise
                            (AList.delete cacheKey (pendingReverseGeocodeRequests g)),
                        next_promise := requestPromise + 1\<rparr>)
                else (Promise requestPromise,
                      g\<lparr>geocode_calls := geocode_calls g @ [c],
                        in_flight := in_flight g @ [(requestPromise, cacheKey)],
                        pendingReverseGeocodeRequests :=
                          AList.update cacheKey requestPromise
                            (pendingReverseGeocodeRequests g),
                        next_promise := requestPromise + 1\<rparr>))"

definition reverseGeocodeAsync ::
  "LocationObjectCoords \<Rightarrow> bool \<Rightarrow> int \<Rightarrow> geocode_state \<Rightarrow> geocode_return \<times> geocode_state" where
  "reverseGeocodeAsync c sig_aborted now g =
     (if sig_aborted then (Value None, g)
      else
        (case map_of (reverseGeocodeCache g) (createCacheKey c) of
           Some cached \<Rightarrow>
             if now - geo_timestamp cached < REVERSE_GEOCODE_CACHE_TTL
             then (Value (geo_address cached), g)
             else start_or_share c sig_aborted g
         | None \<Rightarrow> start_or_share c sig_aborted g))"

text \<open>How the provider's reverse-geocode call ends: with a list of addresses, or by throwing.\<close>

datatype geocode_outcome = Returns "LocationGeocodedAddress list" | Throws

text \<open>
  The rest of the \<^verbatim>\<open>try\<close> and the \<^verbatim>\<open>catch\<close> of the request body, from the
  \<^verbatim>\<open>await\<close> on: \<open>sig_aborted\<close> is the abort flag of the signal the request was created
  with, read after the \<^verbatim>\<open>await\<close>, and \<open>now\<close> is the \<^verbatim>\<open>Date.now()\<close> of
  \<^verbatim>\<open>saveTimestamp\<close>. It returns the value of the body and the new state.
\<close>

definition request_body ::
  "cache_key \<Rightarrow> geocode_outcome \<Rightarrow> bool \<Rightarrow> int \<Rightarrow> geocode_state \<Rightarrow>
   LocationGeocodedAddress option \<times> geocode_state" where
  "request_body cacheKey outcome sig_aborted now g =
     (case outcome of
        Returns addresses \<Rightarrow>
          if sig_aborted then (None, g)
          else
            let result = (case addresses of [] \<Rightarrow> None | a # _ \<Rightarrow> Some a);
                g1 = g\<lparr>reverseGeocodeCache :=
                         AList.update cacheKey \<lparr>geo_address = result, geo_timestamp = now\<rparr>
                           (reverseGeocodeCache g)\<rparr>;
                g2 = (if length (reverseGeocodeCache g1) > CACHE_CLEANUP_THRESHOLD
                      then scheduleCacheCleanup g1 else g1)
            in (result, g2)
      | Throws \<Rightarrow> if sig_aborted then (None, g) else (None, g))"

text \<open>
  The provider call of the request whose promise is \<open>p\<close> ends: the body runs as above,
  then \<^verbatim>\<open>finally\<close> deletes the pending entry of the bucket, and the promise is resolved.
  The result is \<open>None\<close> when no request with this promise is suspended, and otherwise the
  value the promise is resolved with and the new state.
\<close>

definition settle_request ::
  "nat \<Rightarrow> geocode_outcome \<Rightarrow> bool \<Rightarrow> int \<Rightarrow> geocode_state \<Rightarrow>
   (LocationGeocodedAddress option \<times> geocode_state) option" where
  "settle_request p outcome sig_aborted now g =
     (case map_of (in_flight g) p of
        None \<Rightarrow> None
      | Some cacheKey \<Rightarrow>
          (case request_body cacheKey outcome sig_aborted now g of
             (result, g') \<Rightarrow>
               Some (result,
                     g'\<lparr>pendingReverseGeocodeRequests :=
                          AList.delete cacheKey (pendingReverseGeocodeRequests g'),
                        in_flight := AList.delete p (in_flight g'),
                        settled := settled g' @ [(p, result)]\<rparr>)))"

text \<open>What can happen to the geocode cache, and a run of such events from a state.\<close>

datatype geocode_event =
  Call LocationObjectCoords bool int
  | Settle nat geocode_outcome bool int
  | CleanupTimer int

fun geocode_step :: "geocode_event \<Rightarrow> geocode_state \<Rightarrow> geocode_state" where
  "geocode_step (Call c sig_aborted now) g = snd (reverseGeocodeAsync c sig_aborted now g)"
| "geocode_step (Settle p outcome sig_aborted now) g =
     (case settle_request p outcome sig_aborted now g of None \<Rightarrow> g | Some (r, g') \<Rightarrow> g')"
| "geocode_step (CleanupTimer now) g = cleanup_timer now g"

fun geocode_run :: "geocode_event list \<Rightarrow> geocode_state \<Rightarrow> geocode_state" where
  "geocode_run [] g = g"
| "geocode_run (e # es) g = geocode_run es (geocode_step e g)"

text \<open>
  The \<^verbatim>\<open>Date.now()\<close> of an event, and runs whose clock never goes back: \<open>clock_ok t es\<close>
  says that the times of \<open>es\<close> are non-decreasing from \<open>t\<close> on, and \<open>clock_end t es\<close> is
  the time of the last event (\<open>t\<close> when there is none).
\<close>

fun event_time :: "geocode_event \<Rightarrow> int" where
  "event_time (Call c sig_aborted now) = now"
| "event_time (Settle p outcome sig_aborted now) = now"
| "event_time (CleanupTimer now) = now"

fun clock_ok :: "int \<Rightarrow> geocode_event list \<Rightarrow> bool" where
  "clock_ok t [] = True"
| "clock_ok t (e # es) = (t \<le> event_time e \<and> clock_ok (event_time e) es)"

fun clock_end :: "int \<Rightarrow> geocode_event list \<Rightarrow> int" where
  "clock_end t [] = t"
| "clock_end t (e # es) = clock_end (event_time e) es"

text \<open>The requests in flight for a bucket.\<close>

definition in_flight_for :: "cache_key \<Rightarrow> geocode_state \<Rightarrow> nat list" where
  "in_flight_for k g = map fst (filter (\<lambda>(p, k'). k' = k) (in_flight g))"

subsection \<open>The race of the two position sources\<close>

text \<open>
  A promise settles: it is fulfilled with a value or rejected. Each of the two provider
  calls is taken to settle, as the provider's contract has it. \<open>lastKnown_first\<close> says
  which of the two derived promises settles first, and the four flags are
  \<^verbatim>\<open>signal.aborted\<close> at the four places \<^verbatim>\<open>fetchLocationWithRace\<close> reads it.
\<close>

datatype 'a settlement = Fulfilled 'a | Rejected

record race_inputs =
  lastKnown_source :: "LocationObject option settlement"
  newPosition_source :: "LocationObject option settlement"
  lastKnown_first :: bool
  aborted_at_lastKnown :: bool
  aborted_at_newPosition :: bool
  aborted_after_race :: bool
  aborted_after_allSettled :: bool

text \<open>\<^verbatim>\<open>.catch(() => null)\<close> and \<^verbatim>\<open>.then((result) => signal.aborted ? null : result)\<close>.\<close>

definition catch_null :: "'a option settlement \<Rightarrow> 'a option settlement" where
  "catch_null p = (case p of Fulfilled v \<Rightarrow> Fulfilled v | Rejected \<Rightarrow> Fulfilled None)"

definition then_unless_aborted :: "bool \<Rightarrow> 'a option settlement \<Rightarrow> 'a option settlement" where
  "then_unless_aborted sig_aborted p =
     (case p of
        Fulfilled result \<Rightarrow> Fulfilled (if sig_aborted then None else result)
      | Rejected \<Rightarrow> Rejected)"

definition lastKnownPromise :: "race_inputs \<Rightarrow> LocationObject option settlement" where
  "lastKnownPromise r = then_unless_aborted (aborted_at_lastKnown r) (catch_null (lastKnown_source r))"

definition newPositionPromise :: "race_inputs \<Rightarrow> LocationObject option settlement" where
  "newPositionPromise r =
     then_unless_aborted (aborted_at_newPosition r) (catch_null (newPosition_source r))"

definition fetchLocationWithRace :: "race_inputs \<Rightarrow> LocationObject option settlement" where
  "fetchLocationWithRace r =
     (case (if lastKnown_first r then lastKnownPromise r else newPositionPromise r) of
        Rejected \<Rightarrow> Rejected
      | Fulfilled raceResult \<Rightarrow>
          if aborted_after_race r then Fulfilled None
          else
            (case raceResult of
               Some l \<Rightarrow> Fulfilled (Some l)
             | None \<Rightarrow>
                 if aborted_after_allSettled r then Fulfilled None
                 else
                   (case lastKnownPromise r of
                      Fulfilled (Some l) \<Rightarrow> Fulfilled (Some l)
                    | _ \<Rightarrow>
                        (case newPositionPromise r of
                           Fulfilled (Some l) \<Rightarrow> Fulfilled (Some l)
                         | _ \<Rightarrow> Fulfilled None))))"

text \<open>What a source delivers once its failure counts as no fix.\<close>

definition fix_of :: "LocationObject option settlement \<Rightarrow> LocationObject option" where
  "fix_of p = (case p of Fulfilled v \<Rightarrow> v | Rejected \<Rightarrow> None)"

subsection \<open>fetchLocation, run by run\<close>

text \<open>
  The options that the hook itself reads. The others (\<^verbatim>\<open>lastKnownPositionMaxAge\<close> and
  the two accuracies) are only passed on to the provider, and \<^verbatim>\<open>autoFetch\<close> belongs to
  the mount effect.
\<close>

record UseLocationOptions =
  opt_cacheTTL :: int
  enableRefinement :: bool
  significantChangeThreshold :: real

definition default_options :: UseLocationOptions where
  "default_options =
     \<lparr>opt_cacheTTL = CACHE_TTL, enableRefinement = True,
      significantChangeThreshold = SIGNIFICANT_CHANGE_THRESHOLD\<rparr>"

definition safeSetState :: "(session \<Rightarrow> session) \<Rightarrow> session \<Rightarrow> session" where
  "safeSetState setter s = (if isMountedRef s then setter s else s)"

definition setCoords :: "LocationObjectCoords option \<Rightarrow> session \<Rightarrow> session" where
  "setCoords v s = s\<lparr>st_coords := v\<rparr>"

definition setAddress :: "LocationGeocodedAddress option \<Rightarrow> session \<Rightarrow> session" where
  "setAddress v s = s\<lparr>st_address := v\<rparr>"

definition setLoading :: "bool \<Rightarrow> session \<Rightarrow> session" where
  "setLoading v s = s\<lparr>loading := v\<rparr>"

definition setError :: "string option \<Rightarrow> session \<Rightarrow> session" where
  "setError v s = s\<lparr>error := v\<rparr>"

text \<open>
  The first run of \<^verbatim>\<open>fetchLocation\<close> (which is \<^verbatim>\<open>refresh\<close>), up to
  \<^verbatim>\<open>await Location.requestForegroundPermissionsAsync()\<close>. It returns the controller of
  the new fetch, or \<open>None\<close> when the guard on \<^verbatim>\<open>isFetchingRef\<close> returned at once.
\<close>

definition fetchLocation :: "session \<Rightarrow> nat option \<times> session" where
  "fetchLocation s =
     (if isFetchingRef s then (None, s)
      else
        let s1 = (case abortControllerRef s of
                    None \<Rightarrow> s
                  | Some previous \<Rightarrow> s\<lparr>aborted := insert previous (aborted s)\<rparr>);
            abortController = next_controller s1;
            s2 = s1\<lparr>abortControllerRef := Some abortController,
                    next_controller := abortController + 1,
                    isFetchingRef := True\<rparr>;
            s3 = safeSetState (setLoading True) s2;
            s4 = safeSetState (setError None) s3
        in (Some abortController, s4\<lparr>calls := calls s4 @ [RequestForegroundPermissions]\<rparr>))"

text \<open>A thrown value is an \<^verbatim>\<open>Error\<close> with its message, or something else.\<close>

datatype thrown = Error string | NotAnError

definition fetchLocation_catch :: "nat \<Rightarrow> thrown \<Rightarrow> session \<Rightarrow> session" where
  "fetchLocation_catch signal fetchError s =
     (if signal \<in> aborted s then s
      else if isMountedRef s then
        safeSetState (setLoading False)
          (safeSetState (setAddress None)
            (safeSetState (setCoords None)
              (safeSetState
                 (setError
                    (Some (case fetchError of
                             Error message \<Rightarrow> message
                           | NotAnError \<Rightarrow>
                               ''Unable to access your location. Check your device settings.'')))
                 s)))
      else s)"

definition fetchLocation_finally :: "session \<Rightarrow> session" where
  "fetchLocation_finally s = s\<lparr>isFetchingRef := False\<rparr>"

text \<open>How the permission request ends: with a status, or by throwing.\<close>

datatype permission_outcome = Status string | PermissionThrows thrown

text \<open>
  The second run, from the permission outcome to \<^verbatim>\<open>await fetchLocationWithRace(signal)\<close>,
  where both position sources have been called. The flag returned says whether the fetch
  goes on to that \<^verbatim>\<open>await\<close>; otherwise it has ended, through \<^verbatim>\<open>finally\<close>.
\<close>

definition fetchLocation_permission ::
  "nat \<Rightarrow> permission_outcome \<Rightarrow> session \<Rightarrow> bool \<times> session" where
  "fetchLocation_permission signal outcome s =
     (case outcome of
        PermissionThrows e \<Rightarrow> (False, fetchLocation_finally (fetchLocation_catch signal e s))
      | Status status \<Rightarrow>
          if signal \<in> aborted s then (False, fetchLocation_finally s)
          else if status \<noteq> ''granted'' then
            (False,
             fetchLocation_finally
               (fetchLocation_catch signal
                  (Error ''Unable to access your location. Check your device settings.'') s))
          else (True, s\<lparr>calls := calls s @ [GetLastKnownPosition, GetCurrentPositionInitial]\<rparr>))"

text \<open>
  The third run, from the result of the race to the end of \<^verbatim>\<open>finally\<close>. On success it
  publishes the coordinates, starts the address lookup (whose return is the third
  component) and, when refinement is enabled, the refined position request.
\<close>

definition fetchLocation_located ::
  "UseLocationOptions \<Rightarrow> nat \<Rightarrow> LocationObject option \<Rightarrow> int \<Rightarrow>
   session \<times> geocode_state \<Rightarrow> session \<times> geocode_state \<times> geocode_return option" where
  "fetchLocation_located opts signal location now w =
     (case w of (s, g) \<Rightarrow>
        if signal \<in> aborted s then (fetchLocation_finally s, g, None)
        else
          (case location of
             None \<Rightarrow>
               (fetchLocation_finally
                  (fetchLocation_catch signal
                     (Error ''Unable to get location. Please try again.'') s), g, None)
           | Some l \<Rightarrow>
               if \<not> isMountedRef s then (fetchLocation_finally s, g, None)
               else
                 let s1 = setLoading False (setCoords (Some (loc_coords l)) s);
                     (ret, g1) = reverseGeocodeAsync (loc_coords l) (signal \<in> aborted s1) now g;
                     s2 = (if enableRefinement opts \<and> shouldContinue s1 signal
                           then s1\<lparr>calls := calls s1 @ [GetCurrentPositionRefined]\<rparr>
                           else s1)
                 in (fetchLocation_finally s2, g1, Some ret)))"

text \<open>The continuation of an address lookup started by \<^verbatim>\<open>fetchLocation\<close>.\<close>

definition geocode_then ::
  "UseLocationOptions \<Rightarrow> nat \<Rightarrow> LocationObject \<Rightarrow> LocationGeocodedAddress option \<Rightarrow> int \<Rightarrow>
   session \<times> CachedLocation option \<Rightarrow> session \<times> CachedLocation option" where
  "geocode_then opts signal location geocodedAddress now w =
     (if shouldContinue (fst w) signal
      then updateLocation (opt_cacheTTL opts) now location geocodedAddress w
      else w)"


text \<open>The cleanup of the first effect, run when the component unmounts.\<close>

definition unmount :: "session \<Rightarrow> session" where
  "unmount s =
     (let s1 = s\<lparr>isMountedRef := False, hasInitialFetchRef := False\<rparr>;
          s2 = (case abortControllerRef s1 of
                  None \<Rightarrow> s1
                | Some c \<Rightarrow> s1\<lparr>aborted := insert c (aborted s1), abortControllerRef := None\<rparr>)
      in s2\<lparr>isFetchingRef := False\<rparr>)"

text \<open>\<open>n\<close> calls of \<^verbatim>\<open>refresh()\<close> in a row.\<close>

fun refresh_times :: "nat \<Rightarrow> session \<Rightarrow> session" where
  "refresh_times 0 s = s"
| "refresh_times (Suc n) s = refresh_times n (snd (fetchLocation s))"

subsection \<open>The fetch mutex\<close>

text \<open>
  A queued waiter is the closure that \<^verbatim>\<open>acquire\<close> pushed; it is represented by the
  number of the task that called \<^verbatim>\<open>acquire\<close>. \<^verbatim>\<open>acquire\<close> returns whether its promise is
  resolved with a release handle at once. \<open>release\<close> is the handle: it returns the waiter
  it shifted and invoked, if any.
\<close>

record FetchMutex =
  isLocked :: bool
  waiters :: "nat list"

definition acquire :: "nat \<Rightarrow> FetchMutex \<Rightarrow> bool \<times> FetchMutex" where
  "acquire w m =
     (if \<not> isLocked m then (True, m\<lparr>isLocked := True\<rparr>)
      else (False, m\<lparr>waiters := waiters m @ [w]\<rparr>))"

definition release :: "FetchMutex \<Rightarrow> nat option \<times> FetchMutex" where
  "release m =
     (let m1 = m\<lparr>isLocked := False\<rparr>
      in case waiters m1 of
           [] \<Rightarrow> (None, m1)
         | next # rest \<Rightarrow> (Some next, m1\<lparr>waiters := rest, isLocked := True\<rparr>))"

text \<open>
  The tasks running \<^verbatim>\<open>initializeLocation\<close> around the mutex. A task is \<open>Racing\<close> while
  it awaits \<^verbatim>\<open>Promise.race([mutexPromise, cancellationPromise])\<close>, \<open>Holding\<close> once
  \<^verbatim>\<open>releaseMutex\<close> is a handle, \<open>Abandoned\<close> once the race gave \<^verbatim>\<open>null\<close> (the task has
  returned and its \<^verbatim>\<open>releaseMutex\<close> stays \<^verbatim>\<open>null\<close>), and \<open>Released\<close> once it has
  called its handle, which it still has. \<open>granted\<close> lists the tasks whose \<^verbatim>\<open>acquire\<close>
  promise was resolved with a handle, in order.
\<close>

datatype lock_task = Idle | Racing | Holding | Abandoned | Released

record lock_system =
  mutex :: FetchMutex
  task :: "nat \<Rightarrow> lock_task"
  granted :: "nat list"

definition initial_lock_system :: lock_system where
  "initial_lock_system =
     \<lparr>mutex = \<lparr>isLocked = False, waiters = []\<rparr>, task = (\<lambda>_. Idle), granted = []\<rparr>"

text \<open>
  \<open>Acquire w\<close>: task \<open>w\<close> starts \<^verbatim>\<open>initializeLocation\<close> and calls \<^verbatim>\<open>fetchMutex.acquire()\<close>.
  \<open>CancelWaiting w\<close>: the cancellation promise of the racing task \<open>w\<close> resolves
  \<^verbatim>\<open>null\<close> first; the task returns at \<^verbatim>\<open>if (!releaseMutex || ...)\<close>, and neither its
  \<^verbatim>\<open>finally\<close> nor the effect cleanup has a handle to call, so no statement touches the
  mutex. \<open>Release w\<close>: a task \<open>w\<close> whose \<^verbatim>\<open>releaseMutex\<close> is a handle calls it, at an
  early return, in \<^verbatim>\<open>finally\<close> or in the effect cleanup. The handle has no guard
  against a second call, and the source does call it again (\<^verbatim>\<open>finally\<close> after an early
  release, the cleanup after \<^verbatim>\<open>finally\<close>), so a task that has released can release
  again. The promise of the shifted waiter is resolved with a new handle, which a task
  that is no longer racing never reads.
\<close>

datatype lock_event = Acquire nat | CancelWaiting nat | Release nat

fun lock_step :: "lock_event \<Rightarrow> lock_system \<Rightarrow> lock_system" where
  "lock_step (Acquire w) st =
     (if task st w \<noteq> Idle then st
      else case acquire w (mutex st) of
             (True, m) \<Rightarrow> st\<lparr>mutex := m, task := (task st)(w := Holding), granted := granted st @ [w]\<rparr>
           | (False, m) \<Rightarrow> st\<lparr>mutex := m, task := (task st)(w := Racing)\<rparr>)"
| "lock_step (CancelWaiting w) st =
     (if task st w = Racing then st\<lparr>task := (task st)(w := Abandoned)\<rparr> else st)"
| "lock_step (Release w) st =
     (if task st w \<noteq> Holding \<and> task st w \<noteq> Released then st
      else case release (mutex st) of
             (None, m) \<Rightarrow> st\<lparr>mutex := m, task := (task st)(w := Released)\<rparr>
           | (Some next, m) \<Rightarrow>
               st\<lparr>mutex := m,
                  task := (if task st next = Racing
                           then (task st)(w := Released, next := Holding)
                           else (task st)(w := Released)),
                  granted := granted st @ [next]\<rparr>)"

fun lock_run :: "lock_event list \<Rightarrow> lock_system \<Rightarrow> lock_system" where
  "lock_run [] st = st"
| "lock_run (e # es) st = lock_run es (lock_step e st)"

subsection \<open>Predicates used to state the properties\<close>

text \<open>
  The source's test \<^verbatim>\<open>cached && now - cached.timestamp < REVERSE_GEOCODE_CACHE_TTL\<close>
  for the bucket \<open>k\<close>.
\<close>

definition cache_hit :: "int \<Rightarrow> geocode_state \<Rightarrow> cache_key \<Rightarrow> bool" where
  "cache_hit now g k =
     (case map_of (reverseGeocodeCache g) k of
        None \<Rightarrow> False
      | Some e \<Rightarrow> now - geo_timestamp e < REVERSE_GEOCODE_CACHE_TTL)"

text \<open>
  The bookkeeping of the pending requests is consistent: the suspended request bodies
  have distinct promises and distinct buckets, the pending table maps a bucket to a
  promise exactly when that request body is suspended, and every promise in use is
  below the next one to be issued.
\<close>

definition single_flight :: "geocode_state \<Rightarrow> bool" where
  "single_flight g \<longleftrightarrow>
     distinct (map fst (in_flight g)) \<and> distinct (map snd (in_flight g))
     \<and> (\<forall>k p. map_of (pendingReverseGeocodeRequests g) k = Some p \<longleftrightarrow> (p, k) \<in> set (in_flight g))
     \<and> (\<forall>p \<in> fst ` set (in_flight g). p < next_promise g)"

text \<open>
  The cache keys are distinct, and no bucket with a request in flight has an entry that
  is valid at time \<open>t\<close>.
\<close>

definition stale_in_flight :: "int \<Rightarrow> geocode_state \<Rightarrow> bool" where
  "stale_in_flight t g \<longleftrightarrow>
     distinct (map fst (reverseGeocodeCache g))
     \<and> (\<forall>(p, k) \<in> set (in_flight g). \<not> cache_hit t g k)"

text \<open>
  What a consumer sees in session \<open>s'\<close> after a failed fetch that began in \<open>s\<close>: no
  coordinates, no address, not loading, the message published, the in-flight flag
  cleared, and a further \<^verbatim>\<open>refresh()\<close> that starts a fetch with one permission request.
\<close>

definition failed_visibly :: "string \<Rightarrow> session \<Rightarrow> session \<Rightarrow> bool" where
  "failed_visibly message s s' \<longleftrightarrow>
     st_coords s' = None \<and> st_address s' = None \<and> \<not> loading s' \<and> error s' = Some message
     \<and> \<not> isFetchingRef s'
     \<and> fst (fetchLocation s') \<noteq> None
     \<and> calls (snd (fetchLocation s')) = calls s @ [RequestForegroundPermissions]"

subsection \<open>Sample values for the worked instances\<close>

definition fix_A :: LocationObject where
  "fix_A = \<lparr>loc_coords = \<lparr>latitude = 10, longitude = 20\<rparr>, loc_timestamp = 990\<rparr>"

definition fix_B :: LocationObject where
  "fix_B = \<lparr>loc_coords = \<lparr>latitude = 10.5, longitude = 20.25\<rparr>, loc_timestamp = 1990\<rparr>"

definition fix_C :: LocationObject where
  "fix_C = \<lparr>loc_coords = \<lparr>latitude = 10.75, longitude = 20\<rparr>, loc_timestamp = 2990\<rparr>"






definition record_A :: CachedLocation where
  "record_A = \<lparr>coords = loc_coords fix_A, address = Some ''Rua A'', timestamp = 1000,
               cacheTTL = 300000\<rparr>"

section \<open>Theorems\<close>

subsection \<open>Location cache\<close>

lemma apply_write_keeps_newer:
  "c = Some r \<Longrightarrow> \<exists>r'. apply_write w c = Some r' \<and> timestamp r \<le> timestamp r'"
  by (cases w) (auto simp: updateLocation_def installPersisted_def split: option.splits)

lemma apply_writes_append:
  "apply_writes (ws @ ws') c = apply_writes ws' (apply_writes ws c)"
  by (induction ws arbitrary: c) simp_all

lemma apply_writes_keeps_newer:
  "c = Some r \<Longrightarrow> \<exists>r'. apply_writes ws c = Some r' \<and> timestamp r \<le> timestamp r'"
proof (induction ws arbitrary: c r)
  case Nil
  then show ?case by simp
next
  case (Cons w ws)
  from apply_write_keeps_newer [OF Cons.prems, of w]
  obtain r1 where r1: "apply_write w c = Some r1" "timestamp r \<le> timestamp r1"
    by blast
  from Cons.IH [OF r1(1)]
  obtain r2 where "apply_writes ws (apply_write w c) = Some r2" "timestamp r1 \<le> timestamp r2"
    by blast
  with r1(2) show ?case by auto
qed

text \<open>
  C1. Along every sequence of writes to the global location record the stored timestamp
  never decreases: whatever record is stored after a prefix of the sequence, a record is
  still stored after any longer prefix and its timestamp is at least as large. A call of
  \<^verbatim>\<open>updateLocation\<close> whose \<^verbatim>\<open>Date.now()\<close> is strictly below the stored timestamp changes
  neither the record nor the session; any other call by a mounted session replaces the
  record by the four fresh fields, whether or not a record was stored before. (The
  source calls \<^verbatim>\<open>updateLocation\<close> only right after \<^verbatim>\<open>shouldContinue\<close>, so every call
  is by a mounted session.)
\<close>

theorem C1_timestamp_monotone:
  "(apply_writes ws c = Some r \<longrightarrow>
      (\<exists>r'. apply_writes (ws @ ws') c = Some r' \<and> timestamp r \<le> timestamp r'))
   \<and> (now < timestamp r \<longrightarrow>
        updateLocation ttl now location a (s, Some r) = (s, Some r))
   \<and> (isMountedRef s \<and> \<not> now < timestamp r \<longrightarrow>
        snd (updateLocation ttl now location a (s, Some r)) =
          Some \<lparr>coords = loc_coords location, address = a, timestamp = now, cacheTTL = ttl\<rparr>)
   \<and> (isMountedRef s \<longrightarrow>
        snd (updateLocation ttl now location a (s, None)) =
          Some \<lparr>coords = loc_coords location, address = a, timestamp = now, cacheTTL = ttl\<rparr>)"
proof (intro conjI impI)
  assume "apply_writes ws c = Some r"
  from apply_writes_keeps_newer [OF this, of ws']
  show "\<exists>r'. apply_writes (ws @ ws') c = Some r' \<and> timestamp r \<le> timestamp r'"
    by (simp add: apply_writes_append)
qed (simp_all add: updateLocation_def)

theorem C1_timestamp_monotone_witness:
  "apply_writes [Update initial_session 300000 1000 fix_A (Some ''Rua A'')] None = Some record_A
   \<and> (\<exists>r'. apply_writes ([Update initial_session 300000 1000 fix_A (Some ''Rua A'')]
                @ [Update initial_session 60000 900 fix_B None]) None = Some r'
          \<and> 1000 \<le> timestamp r')
   \<and> updateLocation 60000 900 fix_B None (initial_session, Some record_A)
       = (initial_session, Some record_A)
   \<and> snd (updateLocation 60000 1000 fix_B None (initial_session, Some record_A))
       = Some \<lparr>coords = loc_coords fix_B, address = None, timestamp = 1000, cacheTTL = 60000\<rparr>"
  using C1_timestamp_monotone [of
      "[Update initial_session 300000 1000 fix_A (Some ''Rua A'')]" None record_A
      "[Update initial_session 60000 900 fix_B None]" 900 60000 fix_B None initial_session]
    C1_timestamp_monotone [of "[]" None record_A "[]" 1000 60000 fix_B None initial_session]
  by (simp add: updateLocation_def initial_session_def record_A_def)

text \<open>
  C4. The specification has the caller's TTL take precedence over the TTL stored in the
  record. The source takes the stored TTL first and the session's own only when the
  stored one is zero: with a record written at time 0 under a TTL of 1000, a session
  whose TTL is 100 still finds the cache valid at time 500, where the specified check
  says it has expired.
\<close>

theorem C4_code_at_failing_input:
  "isCacheValid 100 500 (Some (record_A\<lparr>timestamp := 0, cacheTTL := 1000\<rparr>))
   \<and> \<not> isValid_spec (Some 100) 500 (Some (record_A\<lparr>timestamp := 0, cacheTTL := 1000\<rparr>))"
  by (simp add: isCacheValid_def isValid_spec_def record_A_def)

subsection \<open>Rounding to a double\<close>



























subsection \<open>Significant change\<close>





subsection \<open>The race of the two position sources\<close>

text \<open>
  C6. Whatever the two sources do (fulfil with a fix, fulfil with null, or reject) and
  whichever settles first, \<^verbatim>\<open>fetchLocationWithRace\<close> is fulfilled, never rejected; and
  when the signal is not aborted its value is the fix of the source that settled first
  if it has one, and otherwise the last-known fix if there is one, else the fresh fix if
  there is one, else null.
\<close>

theorem C6_race_result:
  "(\<exists>v. fetchLocationWithRace r = Fulfilled v)
   \<and> (\<not> aborted_at_lastKnown r \<and> \<not> aborted_at_newPosition r
        \<and> \<not> aborted_after_race r \<and> \<not> aborted_after_allSettled r \<longrightarrow>
      fetchLocationWithRace r =
        Fulfilled
          (case (if lastKnown_first r then fix_of (lastKnown_source r)
                 else fix_of (newPosition_source r)) of
             Some winner \<Rightarrow> Some winner
           | None \<Rightarrow>
               (case fix_of (lastKnown_source r) of
                  Some l \<Rightarrow> Some l
                | None \<Rightarrow> fix_of (newPosition_source r))))"
  by (auto simp: fetchLocationWithRace_def lastKnownPromise_def newPositionPromise_def
      then_unless_aborted_def catch_null_def fix_of_def
      split: settlement.splits option.splits)

theorem C6_race_result_witness:
  "fetchLocationWithRace
     \<lparr>lastKnown_source = Rejected, newPosition_source = Fulfilled (Some fix_A),
      lastKnown_first = True, aborted_at_lastKnown = False, aborted_at_newPosition = False,
      aborted_after_race = False, aborted_after_allSettled = False\<rparr>
     = Fulfilled (Some fix_A)
   \<and> fetchLocationWithRace
     \<lparr>lastKnown_source = Fulfilled (Some fix_B), newPosition_source = Fulfilled (Some fix_A),
      lastKnown_first = False, aborted_at_lastKnown = False, aborted_at_newPosition = False,
      aborted_after_race = False, aborted_after_allSettled = False\<rparr>
     = Fulfilled (Some fix_A)
   \<and> fetchLocationWithRace
     \<lparr>lastKnown_source = Fulfilled None, newPosition_source = Rejected,
      lastKnown_first = False, aborted_at_lastKnown = False, aborted_at_newPosition = False,
      aborted_after_race = False, aborted_after_allSettled = False\<rparr>
     = Fulfilled None"
  using C6_race_result [of
      "\<lparr>lastKnown_source = Rejected, newPosition_source = Fulfilled (Some fix_A),
        lastKnown_first = True, aborted_at_lastKnown = False, aborted_at_newPosition = False,
        aborted_after_race = False, aborted_after_allSettled = False\<rparr>"]
    C6_race_result [of
      "\<lparr>lastKnown_source = Fulfilled (Some fix_B), newPosition_source = Fulfilled (Some fix_A),
        lastKnown_first = False, aborted_at_lastKnown = False, aborted_at_newPosition = False,
        aborted_after_race = False, aborted_after_allSettled = False\<rparr>"]
    C6_race_result [of
      "\<lparr>lastKnown_source = Fulfilled None, newPosition_source = Rejected,
        lastKnown_first = False, aborted_at_lastKnown = False, aborted_at_newPosition = False,
        aborted_after_race = False, aborted_after_allSettled = False\<rparr>"]
  by (simp add: fix_of_def)

subsection \<open>The single-flight guard of refresh\<close>

lemma refresh_times_fetching: "isFetchingRef s \<Longrightarrow> refresh_times n s = s"
  by (induction n) (simp_all add: fetchLocation_def)

lemma fetchLocation_sets_flag:
  "\<not> isFetchingRef s \<Longrightarrow> isFetchingRef (snd (fetchLocation s))"
  by (simp add: fetchLocation_def Let_def safeSetState_def setLoading_def setError_def
      split: option.splits)

lemma fetchLocation_calls:
  "\<not> isFetchingRef s \<Longrightarrow>
   calls (snd (fetchLocation s)) = calls s @ [RequestForegroundPermissions]"
  by (simp add: fetchLocation_def Let_def safeSetState_def setLoading_def setError_def
      split: option.splits)

text \<open>
  C7. While the in-flight flag of a session is set, \<^verbatim>\<open>refresh()\<close> returns at once
  and leaves the session as it is, so any number of such calls leaves the log of provider
  calls unchanged; and from an idle session, one call followed by any number of further
  calls makes exactly one provider call, the permission request of the first.
\<close>

theorem C7_refresh_idempotent:
  "(isFetchingRef s \<longrightarrow>
      fetchLocation s = (None, s) \<and> refresh_times n s = s
      \<and> calls (refresh_times n s) = calls s)
   \<and> (\<not> isFetchingRef s \<longrightarrow>
        calls (refresh_times (Suc n) s) = calls s @ [RequestForegroundPermissions])"
proof (intro conjI impI)
  assume f: "isFetchingRef s"
  then show "fetchLocation s = (None, s)" by (simp add: fetchLocation_def)
  from f show "refresh_times n s = s" by (rule refresh_times_fetching)
  then show "calls (refresh_times n s) = calls s" by simp
next
  assume nf: "\<not> isFetchingRef s"
  have "refresh_times (Suc n) s = snd (fetchLocation s)"
    using refresh_times_fetching [OF fetchLocation_sets_flag [OF nf]] by simp
  then show "calls (refresh_times (Suc n) s) = calls s @ [RequestForegroundPermissions]"
    using fetchLocation_calls [OF nf] by simp
qed

theorem C7_refresh_idempotent_witness:
  "isFetchingRef (snd (fetchLocation initial_session))
   \<and> fetchLocation (snd (fetchLocation initial_session))
       = (None, snd (fetchLocation initial_session))
   \<and> calls (refresh_times 3 (snd (fetchLocation initial_session)))
       = [RequestForegroundPermissions]
   \<and> \<not> isFetchingRef initial_session
   \<and> calls (refresh_times (Suc 3) initial_session) = [RequestForegroundPermissions]"
  using C7_refresh_idempotent [of "snd (fetchLocation initial_session)" 3]
    C7_refresh_idempotent [of initial_session 3]
  by (simp add: initial_session_def fetchLocation_def safeSetState_def setLoading_def
      setError_def)

subsection \<open>The fetch mutex under cancellation\<close>

text \<open>
  C2. The specification has a cancelled waiter removed from the queue and never granted
  the lock. In the source, task 0 holds the lock, tasks 1 and 2 queue, and the
  cancellation of task 1 wins its race: task 1 is still in the queue, ahead of task 2.
  When task 0 releases, the lock is granted to task 1, which has returned and holds no
  handle: the mutex is locked, task 2 is still queued, and a task arriving now queues
  as well. A second call of the handle of task 0, which the source makes when the
  component of task 0 unmounts, then serves task 2.
\<close>

theorem C2_cancelled_waiter_is_granted:
  "lock_run [Acquire 0, Acquire 1, Acquire 2, CancelWaiting 1] initial_lock_system
     = \<lparr>mutex = \<lparr>isLocked = True, waiters = [1, 2]\<rparr>,
        task = (\<lambda>_. Idle)(0 := Holding, 1 := Abandoned, 2 := Racing), granted = [0]\<rparr>
   \<and> lock_run [Acquire 0, Acquire 1, Acquire 2, CancelWaiting 1, Release 0] initial_lock_system
     = \<lparr>mutex = \<lparr>isLocked = True, waiters = [2]\<rparr>,
        task = (\<lambda>_. Idle)(0 := Released, 1 := Abandoned, 2 := Racing), granted = [0, 1]\<rparr>
   \<and> lock_run [Acquire 0, Acquire 1, Acquire 2, CancelWaiting 1, Release 0, Acquire 3]
         initial_lock_system
     = \<lparr>mutex = \<lparr>isLocked = True, waiters = [2, 3]\<rparr>,
        task = (\<lambda>_. Idle)(0 := Released, 1 := Abandoned, 2 := Racing, 3 := Racing),
        granted = [0, 1]\<rparr>
   \<and> lock_run [Acquire 0, Acquire 1, Acquire 2, CancelWaiting 1, Release 0, Release 0]
         initial_lock_system
     = \<lparr>mutex = \<lparr>isLocked = True, waiters = []\<rparr>,
        task = (\<lambda>_. Idle)(0 := Released, 1 := Abandoned, 2 := Holding),
        granted = [0, 1, 2]\<rparr>"
  by (simp add: initial_lock_system_def acquire_def release_def fun_upd_twist)

subsection \<open>Top-level failure of a fetch\<close>

lemma fetchLocation_catch_visible:
  "isMountedRef s \<Longrightarrow> signal \<notin> aborted s \<Longrightarrow>
   fetchLocation_finally (fetchLocation_catch signal e s) =
     s\<lparr>st_coords := None, st_address := None, loading := False,
       error := Some (case e of Error message \<Rightarrow> message
                      | NotAnError \<Rightarrow>
                          ''Unable to access your location. Check your device settings.''),
       isFetchingRef := False\<rparr>"
  by (simp add: fetchLocation_catch_def fetchLocation_finally_def safeSetState_def
      setLoading_def setAddress_def setCoords_def setError_def)

lemma fetchLocation_after_failure:
  "fst (fetchLocation (s\<lparr>st_coords := None, st_address := None, loading := False,
          error := Some m, isFetchingRef := False\<rparr>)) \<noteq> None
   \<and> calls (snd (fetchLocation (s\<lparr>st_coords := None, st_address := None, loading := False,
          error := Some m, isFetchingRef := False\<rparr>)))
       = calls s @ [RequestForegroundPermissions]"
  by (simp add: fetchLocation_def Let_def safeSetState_def setLoading_def setError_def
      split: option.splits)

text \<open>
  C9. In a mounted session whose signal is not aborted, a fetch that fails at the top
  level (the permission status is not \<^verbatim>\<open>granted\<close>, the permission request itself
  throws, or the race yields no fix) ends with coordinates and address absent, loading
  false and the error message published; the in-flight flag is cleared, so the next
  \<^verbatim>\<open>refresh()\<close> passes the guard and issues a new permission request. A failed race
  leaves the geocode cache untouched and starts no lookup.
\<close>

theorem C9_failure_visible_and_retryable:
  "isMountedRef s \<and> signal \<notin> aborted s \<longrightarrow>
     (status \<noteq> ''granted'' \<longrightarrow>
        \<not> fst (fetchLocation_permission signal (Status status) s)
        \<and> failed_visibly ''Unable to access your location. Check your device settings.'' s
            (snd (fetchLocation_permission signal (Status status) s)))
     \<and> (\<not> fst (fetchLocation_permission signal (PermissionThrows (Error message)) s)
        \<and> failed_visibly message s
            (snd (fetchLocation_permission signal (PermissionThrows (Error message)) s)))
     \<and> (failed_visibly ''Unable to get location. Please try again.'' s
            (fst (fetchLocation_located opts signal None now (s, g)))
        \<and> snd (fetchLocation_located opts signal None now (s, g)) = (g, None))"
proof (intro impI conjI; (elim conjE)?)
  assume m: "isMountedRef s" and a: "signal \<notin> aborted s"
  note vis = fetchLocation_catch_visible [OF m a]
  { assume "status \<noteq> ''granted''"
    then show "\<not> fst (fetchLocation_permission signal (Status status) s)"
      using a by (simp add: fetchLocation_permission_def)
    show "failed_visibly ''Unable to access your location. Check your device settings.'' s
            (snd (fetchLocation_permission signal (Status status) s))"
      using a \<open>status \<noteq> ''granted''\<close> fetchLocation_after_failure [where s = s]
      unfolding failed_visibly_def
      by (simp add: fetchLocation_permission_def vis) }
  show "\<not> fst (fetchLocation_permission signal (PermissionThrows (Error message)) s)"
    by (simp add: fetchLocation_permission_def)
  show "failed_visibly message s
            (snd (fetchLocation_permission signal (PermissionThrows (Error message)) s))"
    using fetchLocation_after_failure [where s = s]
    unfolding failed_visibly_def
    by (simp add: fetchLocation_permission_def vis)
  show "failed_visibly ''Unable to get location. Please try again.'' s
            (fst (fetchLocation_located opts signal None now (s, g)))"
    using a fetchLocation_after_failure [where s = s]
    unfolding failed_visibly_def
    by (simp add: fetchLocation_located_def vis)
  show "snd (fetchLocation_located opts signal None now (s, g)) = (g, None)"
    using a by (simp add: fetchLocation_located_def)
qed

theorem C9_failure_visible_and_retryable_witness:
  "isMountedRef (snd (fetchLocation initial_session))
   \<and> 0 \<notin> aborted (snd (fetchLocation initial_session))
   \<and> failed_visibly ''Unable to access your location. Check your device settings.''
        (snd (fetchLocation initial_session))
        (snd (fetchLocation_permission 0 (Status ''denied'')
           (snd (fetchLocation initial_session))))
   \<and> failed_visibly ''boom'' (snd (fetchLocation initial_session))
        (snd (fetchLocation_permission 0 (PermissionThrows (Error ''boom''))
           (snd (fetchLocation initial_session))))
   \<and> failed_visibly ''Unable to get location. Please try again.''
        (snd (fetchLocation initial_session))
        (fst (fetchLocation_located default_options 0 None 7
           (snd (fetchLocation initial_session), initial_geocode_state)))"
proof -
  have h: "isMountedRef (snd (fetchLocation initial_session))
           \<and> 0 \<notin> aborted (snd (fetchLocation initial_session))"
    by (simp add: initial_session_def fetchLocation_def safeSetState_def setLoading_def
        setError_def)
  from h C9_failure_visible_and_retryable [of "snd (fetchLocation initial_session)" 0
      "''denied''" "''boom''" default_options 7 initial_geocode_state]
  show ?thesis by simp
qed

subsection \<open>The reverse-geocode cache\<close>

lemmas geocode_eval =
  initial_geocode_state_def reverseGeocodeAsync_def start_or_share_def
  settle_request_def request_body_def createCacheKey_def Math_round_def Let_def
  fix_A_def REVERSE_GEOCODE_CACHE_TTL_def CACHE_CLEANUP_THRESHOLD_def

lemma request_body_keeps:
  "request_body k outcome ab now g = (v, g') \<Longrightarrow>
   pendingReverseGeocodeRequests g' = pendingReverseGeocodeRequests g
   \<and> in_flight g' = in_flight g \<and> settled g' = settled g
   \<and> next_promise g' = next_promise g \<and> geocode_calls g' = geocode_calls g"
  by (auto simp: request_body_def scheduleCacheCleanup_def Let_def
      split: geocode_outcome.splits if_splits)

lemma request_body_aborted:
  "request_body k outcome True now g = (None, g)"
  by (simp add: request_body_def split: geocode_outcome.splits)

lemma request_body_throws:
  "request_body k Throws ab now g = (None, g)"
  by (simp add: request_body_def)

lemma request_body_returns:
  "request_body k (Returns addresses) False now g = (v, g') \<Longrightarrow>
   v = (case addresses of [] \<Rightarrow> None | a # _ \<Rightarrow> Some a)
   \<and> map_of (reverseGeocodeCache g') k = Some \<lparr>geo_address = v, geo_timestamp = now\<rparr>"
  by (auto simp: request_body_def scheduleCacheCleanup_def Let_def update_conv'
      split: if_splits)

lemma map_of_delete_self: "map_of (AList.delete k al) k = None"
  by (simp add: delete_conv')

lemma settle_request_unfold:
  assumes "map_of (in_flight g) p = Some k" and "request_body k outcome ab now g = (v, g1)"
  shows "settle_request p outcome ab now g =
           Some (v, g1\<lparr>pendingReverseGeocodeRequests :=
                        AList.delete k (pendingReverseGeocodeRequests g),
                      in_flight := AList.delete p (in_flight g),
                      settled := settled g @ [(p, v)]\<rparr>)"
  using assms request_body_keeps [OF assms(2)] by (simp add: settle_request_def)

lemma start_or_share_new:
  assumes "map_of (pendingReverseGeocodeRequests g) (createCacheKey c) = None"
  shows "start_or_share c False g =
           (Promise (next_promise g),
            g\<lparr>geocode_calls := geocode_calls g @ [c],
              in_flight := in_flight g @ [(next_promise g, createCacheKey c)],
              pendingReverseGeocodeRequests :=
                AList.update (createCacheKey c) (next_promise g) (pendingReverseGeocodeRequests g),
              next_promise := next_promise g + 1\<rparr>)"
  using assms by (simp add: start_or_share_def Let_def)

lemma start_or_share_pending:
  assumes "map_of (pendingReverseGeocodeRequests g) (createCacheKey c) = Some p"
  shows "start_or_share c ab g = (if ab then Value None else Promise p, g)"
  using assms by (simp add: start_or_share_def Let_def)

lemma reverseGeocodeAsync_miss:
  "\<not> cache_hit now g (createCacheKey c) \<Longrightarrow>
   reverseGeocodeAsync c False now g = start_or_share c False g"
  by (simp add: reverseGeocodeAsync_def cache_hit_def split: option.splits)

lemma reverseGeocodeAsync_hit:
  "map_of (reverseGeocodeCache g) (createCacheKey c) = Some e \<Longrightarrow>
   now - geo_timestamp e < REVERSE_GEOCODE_CACHE_TTL \<Longrightarrow>
   reverseGeocodeAsync c False now g = (Value (geo_address e), g)"
  by (simp add: reverseGeocodeAsync_def)

lemma reverseGeocodeAsync_while_pending:
  assumes "map_of (pendingReverseGeocodeRequests g) (createCacheKey c) = Some p"
  shows "snd (reverseGeocodeAsync c ab now g) = g"
  using assms
  by (simp add: reverseGeocodeAsync_def start_or_share_pending split: option.splits)

lemma reverseGeocodeAsync_cases:
  "snd (reverseGeocodeAsync c ab now g) = g
   \<or> (\<not> ab \<and> map_of (pendingReverseGeocodeRequests g) (createCacheKey c) = None
       \<and> reverseGeocodeAsync c ab now g = start_or_share c False g)"
  by (cases "map_of (pendingReverseGeocodeRequests g) (createCacheKey c)")
     (auto simp: reverseGeocodeAsync_def start_or_share_pending split: option.splits)

text \<open>
  C3 as stated fails. A request for the bucket of \<open>fix_A\<close> is started at time 0; its
  signal is aborted while the provider call is in flight; the provider then returns an
  address at time 5. The request resolves with null, and the cache holds no entry for
  the bucket: the result was not stored.
\<close>

theorem C3_counterexample:
  "map_of (in_flight (geocode_run [Call (loc_coords fix_A) False 0] initial_geocode_state)) 0
     = Some (createCacheKey (loc_coords fix_A))
   \<and> map_of (reverseGeocodeCache
        (geocode_run [Call (loc_coords fix_A) False 0, Settle 0 (Returns [''Rua A'']) True 5]
           initial_geocode_state)) (createCacheKey (loc_coords fix_A)) = None
   \<and> settled (geocode_run [Call (loc_coords fix_A) False 0, Settle 0 (Returns [''Rua A'']) True 5]
           initial_geocode_state) = [(0, None)]"
  by (simp add: initial_geocode_state_def reverseGeocodeAsync_def start_or_share_def
      settle_request_def request_body_def fix_A_def createCacheKey_def Math_round_def Let_def)

text \<open>
  C3, amended. A request in flight when its signal is aborted is not interrupted: when
  the provider call ends, in either way, the request body runs to its end and clears
  the pending entry of its bucket. But it stores nothing: the geocode cache is as it was,
  no further provider call is made, and the promise is resolved with null, for the
  requester and for every caller that shares the promise.
\<close>

theorem C3_aborted_request_discards:
  "map_of (in_flight g) p = Some k \<longrightarrow>
     (\<exists>g'. settle_request p outcome True now g = Some (None, g')
        \<and> reverseGeocodeCache g' = reverseGeocodeCache g
        \<and> map_of (pendingReverseGeocodeRequests g') k = None
        \<and> map_of (in_flight g') p = None
        \<and> settled g' = settled g @ [(p, None)]
        \<and> geocode_calls g' = geocode_calls g)"
  by (simp add: settle_request_def request_body_aborted map_of_delete_self)

theorem C3_aborted_request_discards_witness:
  "map_of (in_flight (geocode_run [Call (loc_coords fix_A) False 0] initial_geocode_state)) 0
     = Some (createCacheKey (loc_coords fix_A))
   \<and> (\<exists>g'. settle_request 0 (Returns [''Rua A'']) True 5
              (geocode_run [Call (loc_coords fix_A) False 0] initial_geocode_state)
            = Some (None, g')
          \<and> reverseGeocodeCache g' = []
          \<and> settled g' = [(0, None)]
          \<and> geocode_calls g' = [loc_coords fix_A])"
  using C3_aborted_request_discards [of
      "geocode_run [Call (loc_coords fix_A) False 0] initial_geocode_state" 0
      "createCacheKey (loc_coords fix_A)" "Returns [''Rua A'']" 5]
  by (simp add: geocode_eval)

subsection \<open>At most one request in flight per bucket\<close>

lemma single_flight_initial: "single_flight initial_geocode_state"
  by (simp add: single_flight_def initial_geocode_state_def)

lemma single_flight_start:
  assumes inv: "single_flight g"
    and none: "map_of (pendingReverseGeocodeRequests g) k = None"
  shows "single_flight
           (g\<lparr>geocode_calls := cs,
              in_flight := in_flight g @ [(next_promise g, k)],
              pendingReverseGeocodeRequests :=
                AList.update k (next_promise g) (pendingReverseGeocodeRequests g),
              next_promise := next_promise g + 1\<rparr>)" (is "single_flight ?g'")
proof -
  from inv have d1: "distinct (map fst (in_flight g))" and d2: "distinct (map snd (in_flight g))"
    and iff: "\<And>k p. map_of (pendingReverseGeocodeRequests g) k = Some p \<longleftrightarrow> (p, k) \<in> set (in_flight g)"
    and bound: "\<And>p. p \<in> fst ` set (in_flight g) \<Longrightarrow> p < next_promise g"
    by (auto simp: single_flight_def)
  have fresh_p: "next_promise g \<notin> fst ` set (in_flight g)"
    using bound by blast
  have fresh_in: "(p, k) \<notin> set (in_flight g)" for p
    using iff [of k p] none by simp
  then have fresh_k: "k \<notin> snd ` set (in_flight g)"
    by force
  show ?thesis
    unfolding single_flight_def
  proof (intro conjI allI ballI)
    show "distinct (map fst (in_flight ?g'))" using d1 fresh_p by simp
    show "distinct (map snd (in_flight ?g'))" using d2 fresh_k by simp
    show "map_of (pendingReverseGeocodeRequests ?g') k' = Some p
            \<longleftrightarrow> (p, k') \<in> set (in_flight ?g')" for k' p
      using iff [of k' p] fresh_in [of p] by (cases "k' = k") (auto simp: update_conv')
    show "p < next_promise ?g'" if "p \<in> fst ` set (in_flight ?g')" for p
      using that bound [of p] by force
  qed
qed

lemma single_flight_call:
  assumes "single_flight g"
  shows "single_flight (snd (reverseGeocodeAsync c ab now g))"
  using reverseGeocodeAsync_cases [of c ab now g]
proof
  assume "snd (reverseGeocodeAsync c ab now g) = g"
  with assms show ?thesis by simp
next
  assume "\<not> ab \<and> map_of (pendingReverseGeocodeRequests g) (createCacheKey c) = None
       \<and> reverseGeocodeAsync c ab now g = start_or_share c False g"
  then have none: "map_of (pendingReverseGeocodeRequests g) (createCacheKey c) = None"
    and eq: "reverseGeocodeAsync c ab now g = start_or_share c False g"
    by blast+
  show ?thesis
    unfolding eq start_or_share_new [OF none] snd_conv
    by (rule single_flight_start [OF assms none])
qed

lemma distinct_snd_unique:
  "distinct (map snd xs) \<Longrightarrow> (p, k) \<in> set xs \<Longrightarrow> (q, k) \<in> set xs \<Longrightarrow> q = p"
proof (induction xs)
  case Nil
  then show ?case by simp
next
  case (Cons x xs)
  have "k \<in> snd ` set xs" if "(r, k) \<in> set xs" for r
    using that by force
  with Cons show ?case by auto
qed

lemma distinct_fst_unique:
  "distinct (map fst xs) \<Longrightarrow> (p, k) \<in> set xs \<Longrightarrow> (p, k') \<in> set xs \<Longrightarrow> k' = k"
  by (rule eq_key_imp_eq_value)

lemma single_flight_finish:
  assumes inv: "single_flight g" and p: "map_of (in_flight g) p = Some k"
    and same: "pendingReverseGeocodeRequests g1 = pendingReverseGeocodeRequests g"
      "in_flight g1 = in_flight g" "next_promise g1 = next_promise g"
  shows "single_flight
           (g1\<lparr>pendingReverseGeocodeRequests :=
                 AList.delete k (pendingReverseGeocodeRequests g),
               in_flight := AList.delete p (in_flight g),
               settled := st\<rparr>)" (is "single_flight ?g'")
proof -
  from inv have d1: "distinct (map fst (in_flight g))" and d2: "distinct (map snd (in_flight g))"
    and iff: "\<And>k p. map_of (pendingReverseGeocodeRequests g) k = Some p \<longleftrightarrow> (p, k) \<in> set (in_flight g)"
    and bound: "\<And>p. p \<in> fst ` set (in_flight g) \<Longrightarrow> p < next_promise g"
    by (auto simp: single_flight_def)
  from p have pk: "(p, k) \<in> set (in_flight g)" by (rule map_of_SomeD)
  have set_del: "set (AList.delete p (in_flight g)) = {(q, k'). (q, k') \<in> set (in_flight g) \<and> q \<noteq> p}"
    by (auto simp: AList.delete_eq)
  have uniq_k: "\<And>q. (q, k) \<in> set (in_flight g) \<Longrightarrow> q = p"
    using d2 pk by (rule distinct_snd_unique)
  have uniq_p: "\<And>k'. (p, k') \<in> set (in_flight g) \<Longrightarrow> k' = k"
    using d1 pk by (rule distinct_fst_unique)
  have e1: "distinct (map fst (AList.delete p (in_flight g)))"
    using d1 by (rule distinct_delete)
  have e2: "distinct (map snd (AList.delete p (in_flight g)))"
    using d2 unfolding AList.delete_eq by (rule distinct_map_filter)
  have e3: "map_of (AList.delete k (pendingReverseGeocodeRequests g)) k' = Some q
             \<longleftrightarrow> (q, k') \<in> set (AList.delete p (in_flight g))" for k' q
  proof (cases "k' = k")
    case True
    then show ?thesis using uniq_k [of q] by (simp add: delete_conv' set_del)
  next
    case False
    then show ?thesis using iff [of k' q] uniq_p [of k'] by (auto simp: delete_conv' set_del)
  qed
  have sub: "set (AList.delete p (in_flight g)) \<subseteq> set (in_flight g)"
    by (auto simp: set_del)
  have e4: "q < next_promise g" if "q \<in> fst ` set (AList.delete p (in_flight g))" for q
  proof -
    from that sub have "q \<in> fst ` set (in_flight g)" by blast
    then show ?thesis by (rule bound)
  qed
  show ?thesis
    unfolding single_flight_def
  proof (intro conjI allI ballI)
    show "distinct (map fst (in_flight ?g'))" using e1 by simp
    show "distinct (map snd (in_flight ?g'))" using e2 by simp
    show "map_of (pendingReverseGeocodeRequests ?g') k' = Some q
            \<longleftrightarrow> (q, k') \<in> set (in_flight ?g')" for k' q
      using e3 [of k' q] by simp
    show "q < next_promise ?g'" if "q \<in> fst ` set (in_flight ?g')" for q
      using that e4 [of q] same by simp
  qed
qed

lemma single_flight_step:
  assumes "single_flight g"
  shows "single_flight (geocode_step e g)"
proof (cases e)
  case (Call c ab now)
  with single_flight_call [OF assms] show ?thesis by simp
next
  case (Settle p outcome ab now)
  show ?thesis
  proof (cases "map_of (in_flight g) p")
    case None
    with Settle assms show ?thesis by (simp add: settle_request_def)
  next
    case (Some k)
    obtain v g1 where body: "request_body k outcome ab now g = (v, g1)"
      by (cases "request_body k outcome ab now g")
    from request_body_keeps [OF body]
    have "single_flight
           (g1\<lparr>pendingReverseGeocodeRequests :=
                 AList.delete k (pendingReverseGeocodeRequests g),
               in_flight := AList.delete p (in_flight g),
               settled := settled g @ [(p, v)]\<rparr>)"
      by (intro single_flight_finish [OF assms Some]) simp_all
    with Settle settle_request_unfold [OF Some body] show ?thesis by simp
  qed
next
  case (CleanupTimer now)
  with assms show ?thesis
    by (simp add: cleanup_timer_def cleanReverseGeocodeCache_def single_flight_def)
qed

lemma single_flight_run:
  "single_flight g \<Longrightarrow> single_flight (geocode_run es g)"
  by (induction es arbitrary: g) (simp_all add: single_flight_step)

lemma filter_key_length:
  "distinct (map snd xs) \<Longrightarrow> length (filter (\<lambda>(p, k'). k' = k) xs) \<le> 1"
proof (induction xs)
  case Nil
  then show ?case by simp
next
  case (Cons x xs)
  obtain q k' where x: "x = (q, k')" by (cases x)
  show ?case
  proof (cases "k' = k")
    case True
    with Cons.prems x have "k \<notin> snd ` set xs" by simp
    then have "filter (\<lambda>(p, k'). k' = k) xs = []"
      by (force simp: filter_empty_conv)
    with x True show ?thesis by simp
  next
    case False
    with Cons x show ?thesis by simp
  qed
qed

lemma single_flight_at_most_one:
  "single_flight g \<Longrightarrow> length (in_flight_for k g) \<le> 1"
  unfolding in_flight_for_def single_flight_def
  using filter_key_length [of "in_flight g" k] by simp

lemma in_flight_for_empty:
  assumes inv: "single_flight g"
    and none: "map_of (pendingReverseGeocodeRequests g) k = None"
  shows "in_flight_for k g = []"
proof -
  have "(p, k) \<notin> set (in_flight g)" for p
    using inv none unfolding single_flight_def by (metis option.distinct(1))
  then show ?thesis
    unfolding in_flight_for_def by (auto simp: filter_empty_conv)
qed

lemma pending_is_in_flight:
  assumes "single_flight g" and "map_of (pendingReverseGeocodeRequests g) k = Some p"
  shows "map_of (in_flight g) p = Some k"
proof -
  from assms(1) have iff: "map_of (pendingReverseGeocodeRequests g) k = Some p
      \<longleftrightarrow> (p, k) \<in> set (in_flight g)"
    and d: "distinct (map fst (in_flight g))"
    unfolding single_flight_def by blast+
  from iff assms(2) have "(p, k) \<in> set (in_flight g)" by simp
  with d show ?thesis by (rule map_of_is_SomeI)
qed

subsection \<open>A bucket with a request in flight has no valid entry\<close>

text \<open>
  A request is started only when the cache has no valid entry for its bucket, only its
  own settlement writes that bucket, and an entry that is not valid stays so as the
  clock advances.
\<close>

lemma cache_hit_later: "\<not> cache_hit t g k \<Longrightarrow> t \<le> t' \<Longrightarrow> \<not> cache_hit t' g k"
  by (auto simp: cache_hit_def split: option.splits)

lemma stale_in_flight_later:
  "stale_in_flight t g \<Longrightarrow> t \<le> t' \<Longrightarrow> stale_in_flight t' g"
  unfolding stale_in_flight_def using cache_hit_later by blast

lemma stale_in_flight_initial: "stale_in_flight t initial_geocode_state"
  by (simp add: stale_in_flight_def initial_geocode_state_def)

lemma reverseGeocodeAsync_cases_miss:
  "snd (reverseGeocodeAsync c ab now g) = g
   \<or> (\<not> cache_hit now g (createCacheKey c)
       \<and> map_of (pendingReverseGeocodeRequests g) (createCacheKey c) = None
       \<and> reverseGeocodeAsync c ab now g = start_or_share c False g)"
  by (cases "map_of (pendingReverseGeocodeRequests g) (createCacheKey c)")
     (auto simp: reverseGeocodeAsync_def start_or_share_pending cache_hit_def
       split: option.splits)

lemma stale_in_flight_call:
  assumes "stale_in_flight now g"
  shows "stale_in_flight now (snd (reverseGeocodeAsync c ab now g))"
  using reverseGeocodeAsync_cases_miss [of c ab now g]
proof
  assume "snd (reverseGeocodeAsync c ab now g) = g"
  with assms show ?thesis by simp
next
  assume "\<not> cache_hit now g (createCacheKey c)
       \<and> map_of (pendingReverseGeocodeRequests g) (createCacheKey c) = None
       \<and> reverseGeocodeAsync c ab now g = start_or_share c False g"
  then have miss: "\<not> cache_hit now g (createCacheKey c)"
    and none: "map_of (pendingReverseGeocodeRequests g) (createCacheKey c) = None"
    and eq: "reverseGeocodeAsync c ab now g = start_or_share c False g"
    by blast+
  show ?thesis
    unfolding eq start_or_share_new [OF none] snd_conv
    using assms miss by (auto simp: stale_in_flight_def cache_hit_def)
qed

lemma request_body_cache:
  "request_body k outcome ab now g = (v, g1) \<Longrightarrow>
   reverseGeocodeCache g1 = reverseGeocodeCache g
   \<or> (\<exists>e. reverseGeocodeCache g1 = AList.update k e (reverseGeocodeCache g))"
  by (auto simp: request_body_def scheduleCacheCleanup_def Let_def
      split: geocode_outcome.splits if_splits)

lemma stale_in_flight_settle:
  assumes inv: "single_flight g" and st: "stale_in_flight now g"
    and p: "map_of (in_flight g) p = Some k"
    and body: "request_body k outcome ab now g = (v, g1)"
  shows "stale_in_flight now
           (g1\<lparr>pendingReverseGeocodeRequests := pend,
               in_flight := AList.delete p (in_flight g),
               settled := sts\<rparr>)" (is "stale_in_flight now ?g'")
proof -
  from inv have d2: "distinct (map snd (in_flight g))"
    by (simp add: single_flight_def)
  from p have pk: "(p, k) \<in> set (in_flight g)" by (rule map_of_SomeD)
  from st have dc: "distinct (map fst (reverseGeocodeCache g))"
    and cold: "\<And>q k'. (q, k') \<in> set (in_flight g) \<Longrightarrow> \<not> cache_hit now g k'"
    by (auto simp: stale_in_flight_def)
  have other: "k' \<noteq> k" if "(q, k') \<in> set (AList.delete p (in_flight g))" for q k'
  proof
    assume "k' = k"
    with that have "(q, k) \<in> set (in_flight g)" "q \<noteq> p"
      by (auto simp: AList.delete_eq)
    with distinct_snd_unique [OF d2 pk] show False by blast
  qed
  have same: "map_of (reverseGeocodeCache g1) k' = map_of (reverseGeocodeCache g) k'"
    if "k' \<noteq> k" for k'
    using request_body_cache [OF body] that by (auto simp: update_conv')
  have dc1: "distinct (map fst (reverseGeocodeCache g1))"
    using request_body_cache [OF body] dc by (auto simp: distinct_update)
  have "\<not> cache_hit now ?g' k'" if "(q, k') \<in> set (AList.delete p (in_flight g))" for q k'
  proof -
    from that have "(q, k') \<in> set (in_flight g)" by (auto simp: AList.delete_eq)
    from cold [OF this] same [OF other [OF that]] show ?thesis
      by (simp add: cache_hit_def)
  qed
  with dc1 show ?thesis
    by (auto simp: stale_in_flight_def)
qed

lemma map_of_filter_distinct:
  assumes "distinct (map fst xs)" and "map_of (filter P xs) k = Some e"
  shows "map_of xs k = Some e"
proof -
  from assms(2) have "(k, e) \<in> set (filter P xs)" by (rule map_of_SomeD)
  then have "(k, e) \<in> set xs" by simp
  with assms(1) show ?thesis by (rule map_of_is_SomeI)
qed

lemma stale_in_flight_cleanup:
  assumes "stale_in_flight now g"
  shows "stale_in_flight now (cleanup_timer now g)"
proof -
  from assms have dc: "distinct (map fst (reverseGeocodeCache g))"
    and cold: "\<And>q k'. (q, k') \<in> set (in_flight g) \<Longrightarrow> \<not> cache_hit now g k'"
    by (auto simp: stale_in_flight_def)
  have "\<not> cache_hit now (cleanup_timer now g) k" if "(q, k) \<in> set (in_flight g)" for q k
  proof
    assume "cache_hit now (cleanup_timer now g) k"
    then obtain e where e: "map_of (reverseGeocodeCache (cleanup_timer now g)) k = Some e"
      and v: "now - geo_timestamp e < REVERSE_GEOCODE_CACHE_TTL"
      by (auto simp: cache_hit_def split: option.splits)
    from e have "map_of (reverseGeocodeCache g) k = Some e"
      using map_of_filter_distinct [OF dc]
      by (auto simp: cleanup_timer_def cleanReverseGeocodeCache_def split: if_splits)
    with v have "cache_hit now g k" by (simp add: cache_hit_def)
    with cold [OF that] show False by simp
  qed
  moreover have "distinct (map fst (reverseGeocodeCache (cleanup_timer now g)))"
    using dc by (simp add: cleanup_timer_def cleanReverseGeocodeCache_def distinct_map_filter)
  moreover have "in_flight (cleanup_timer now g) = in_flight g"
    by (simp add: cleanup_timer_def cleanReverseGeocodeCache_def)
  ultimately show ?thesis
    by (auto simp: stale_in_flight_def)
qed

lemma stale_in_flight_step:
  assumes inv: "single_flight g" and st: "stale_in_flight t g" and le: "t \<le> event_time e"
  shows "stale_in_flight (event_time e) (geocode_step e g)"
proof -
  from stale_in_flight_later [OF st le] have st': "stale_in_flight (event_time e) g" .
  show ?thesis
  proof (cases e)
    case (Call c ab now)
    with stale_in_flight_call [of now g c ab] st' show ?thesis by simp
  next
    case (Settle p outcome ab now)
    show ?thesis
    proof (cases "map_of (in_flight g) p")
      case None
      with Settle st' show ?thesis by (simp add: settle_request_def)
    next
      case (Some k)
      obtain v g1 where body: "request_body k outcome ab now g = (v, g1)"
        by (cases "request_body k outcome ab now g")
      from Settle st' have "stale_in_flight now g" by simp
      from stale_in_flight_settle [OF inv this Some body]
      show ?thesis using Settle settle_request_unfold [OF Some body] by simp
    qed
  next
    case (CleanupTimer now)
    with stale_in_flight_cleanup [of now g] st' show ?thesis by simp
  qed
qed

lemma stale_in_flight_run:
  "single_flight g \<Longrightarrow> stale_in_flight t g \<Longrightarrow> clock_ok t es \<Longrightarrow>
   stale_in_flight (clock_end t es) (geocode_run es g)"
proof (induction es arbitrary: g t)
  case Nil
  then show ?case by simp
next
  case (Cons e es)
  from Cons.prems(3) have le: "t \<le> event_time e" and rest: "clock_ok (event_time e) es"
    by simp_all
  from Cons.IH [OF single_flight_step [OF Cons.prems(1)]
      stale_in_flight_step [OF Cons.prems(1,2) le] rest]
  show ?case by simp
qed

lemma in_flight_is_stale:
  assumes "clock_ok t es" and "clock_end t es \<le> now"
    and "map_of (in_flight (geocode_run es initial_geocode_state)) p = Some k"
  shows "\<not> cache_hit now (geocode_run es initial_geocode_state) k"
proof -
  from stale_in_flight_run [OF single_flight_initial stale_in_flight_initial assms(1)]
  have "stale_in_flight (clock_end t es) (geocode_run es initial_geocode_state)" .
  moreover from assms(3) have "(p, k) \<in> set (in_flight (geocode_run es initial_geocode_state))"
    by (rule map_of_SomeD)
  ultimately have "\<not> cache_hit (clock_end t es) (geocode_run es initial_geocode_state) k"
    by (auto simp: stale_in_flight_def)
  from cache_hit_later [OF this assms(2)] show ?thesis .
qed

text \<open>
  C5. In every state reached from the empty one by calls, settlements and cleanups, in
  any order, each bucket has at most one request in flight. In such a state, with a
  clock that has not gone back, a call for a bucket with a pending request changes
  nothing and starts nothing, whatever its signal, and a caller whose signal is not
  aborted is handed the pending promise itself. A call that finds neither a valid entry
  nor a pending request returns a new promise which, in the state it leaves behind, is
  already registered as pending and is the only request in flight for the bucket, with
  one provider call made. And whichever way a request in flight ends (the provider
  returns or throws, the signal aborted or not), the pending entry of its bucket is
  cleared and nothing is in flight for the bucket.
\<close>

theorem C5_single_flight:
  "length (in_flight_for k (geocode_run es initial_geocode_state)) \<le> 1
   \<and> (g = geocode_run es initial_geocode_state \<and> clock_ok t es \<and> clock_end t es \<le> now \<longrightarrow>
        (map_of (pendingReverseGeocodeRequests g) (createCacheKey c) = Some p \<longrightarrow>
           snd (reverseGeocodeAsync c ab now g) = g
           \<and> reverseGeocodeAsync c False now g = (Promise p, g))
        \<and> (map_of (pendingReverseGeocodeRequests g) (createCacheKey c) = None
            \<and> \<not> cache_hit now g (createCacheKey c) \<longrightarrow>
           fst (reverseGeocodeAsync c False now g) = Promise (next_promise g)
           \<and> map_of (pendingReverseGeocodeRequests (snd (reverseGeocodeAsync c False now g)))
                (createCacheKey c) = Some (next_promise g)
           \<and> in_flight_for (createCacheKey c) (snd (reverseGeocodeAsync c False now g))
                = [next_promise g]
           \<and> geocode_calls (snd (reverseGeocodeAsync c False now g)) = geocode_calls g @ [c])
        \<and> (map_of (in_flight g) q = Some k \<longrightarrow>
             (\<exists>v g'. settle_request q outcome ab now g = Some (v, g')
                \<and> map_of (pendingReverseGeocodeRequests g') k = None
                \<and> in_flight_for k g' = [])))"
proof (intro conjI impI; (elim conjE)?)
  have reach: "single_flight (geocode_run es initial_geocode_state)"
    by (rule single_flight_run [OF single_flight_initial])
  then show "length (in_flight_for k (geocode_run es initial_geocode_state)) \<le> 1"
    by (rule single_flight_at_most_one)
  { assume g: "g = geocode_run es initial_geocode_state"
    with reach have inv: "single_flight g" by simp
    { assume pend: "map_of (pendingReverseGeocodeRequests g) (createCacheKey c) = Some p"
      then show "snd (reverseGeocodeAsync c ab now g) = g"
        by (rule reverseGeocodeAsync_while_pending)
      assume ok: "clock_ok t es" and le: "clock_end t es \<le> now"
      from pending_is_in_flight [OF inv pend] g
      have "map_of (in_flight (geocode_run es initial_geocode_state)) p = Some (createCacheKey c)"
        by simp
      from in_flight_is_stale [OF ok le this] g
      have "\<not> cache_hit now g (createCacheKey c)" by simp
      then show "reverseGeocodeAsync c False now g = (Promise p, g)"
        using pend by (simp add: reverseGeocodeAsync_miss start_or_share_pending) }
    { assume none: "map_of (pendingReverseGeocodeRequests g) (createCacheKey c) = None"
        and miss: "\<not> cache_hit now g (createCacheKey c)"
      have eq: "reverseGeocodeAsync c False now g =
           (Promise (next_promise g),
            g\<lparr>geocode_calls := geocode_calls g @ [c],
              in_flight := in_flight g @ [(next_promise g, createCacheKey c)],
              pendingReverseGeocodeRequests :=
                AList.update (createCacheKey c) (next_promise g) (pendingReverseGeocodeRequests g),
              next_promise := next_promise g + 1\<rparr>)"
        using reverseGeocodeAsync_miss [OF miss] start_or_share_new [OF none] by simp
      show "fst (reverseGeocodeAsync c False now g) = Promise (next_promise g)"
        by (simp add: eq)
      show "map_of (pendingReverseGeocodeRequests (snd (reverseGeocodeAsync c False now g)))
                (createCacheKey c) = Some (next_promise g)"
        by (simp add: eq update_conv')
      show "in_flight_for (createCacheKey c) (snd (reverseGeocodeAsync c False now g))
                = [next_promise g]"
        using in_flight_for_empty [OF inv none]
        by (simp add: eq in_flight_for_def)
      show "geocode_calls (snd (reverseGeocodeAsync c False now g)) = geocode_calls g @ [c]"
        by (simp add: eq) }
    { assume q: "map_of (in_flight g) q = Some k"
      obtain v g1 where body: "request_body k outcome ab now g = (v, g1)"
        by (cases "request_body k outcome ab now g")
      let ?g' = "g1\<lparr>pendingReverseGeocodeRequests :=
                        AList.delete k (pendingReverseGeocodeRequests g),
                      in_flight := AList.delete q (in_flight g),
                      settled := settled g @ [(q, v)]\<rparr>"
      have settle: "settle_request q outcome ab now g = Some (v, ?g')"
        by (rule settle_request_unfold [OF q body])
      have inv': "single_flight ?g'"
        using request_body_keeps [OF body]
        by (intro single_flight_finish [OF inv q]) simp_all
      have gone: "map_of (pendingReverseGeocodeRequests ?g') k = None"
        by (simp add: map_of_delete_self)
      from in_flight_for_empty [OF inv' gone] settle gone
      show "\<exists>v g'. settle_request q outcome ab now g = Some (v, g')
                \<and> map_of (pendingReverseGeocodeRequests g') k = None
                \<and> in_flight_for k g' = []"
        by blast } }
qed

theorem C5_single_flight_witness:
  "length (in_flight_for (createCacheKey (loc_coords fix_A))
      (geocode_run [Call (loc_coords fix_A) False 0] initial_geocode_state)) \<le> 1
   \<and> clock_ok 0 [Call (loc_coords fix_A) False 0]
   \<and> clock_end 0 [Call (loc_coords fix_A) False 0] \<le> 1
   \<and> map_of (pendingReverseGeocodeRequests
        (geocode_run [Call (loc_coords fix_A) False 0] initial_geocode_state))
        (createCacheKey (loc_coords fix_A)) = Some 0
   \<and> reverseGeocodeAsync (loc_coords fix_A) False 1
        (geocode_run [Call (loc_coords fix_A) False 0] initial_geocode_state)
       = (Promise 0, geocode_run [Call (loc_coords fix_A) False 0] initial_geocode_state)
   \<and> map_of (pendingReverseGeocodeRequests
        (geocode_run [Call (loc_coords fix_A) False 0] initial_geocode_state))
        (createCacheKey (loc_coords fix_C)) = None
   \<and> in_flight_for (createCacheKey (loc_coords fix_C))
        (snd (reverseGeocodeAsync (loc_coords fix_C) False 1
           (geocode_run [Call (loc_coords fix_A) False 0] initial_geocode_state))) = [1]
   \<and> map_of (in_flight (geocode_run [Call (loc_coords fix_A) False 0] initial_geocode_state)) 0
       = Some (createCacheKey (loc_coords fix_A))
   \<and> (\<exists>v g'. settle_request 0 Throws False 1
          (geocode_run [Call (loc_coords fix_A) False 0] initial_geocode_state) = Some (v, g')
        \<and> map_of (pendingReverseGeocodeRequests g') (createCacheKey (loc_coords fix_A)) = None
        \<and> in_flight_for (createCacheKey (loc_coords fix_A)) g' = [])"
  using C5_single_flight [of "createCacheKey (loc_coords fix_A)"
      "[Call (loc_coords fix_A) False 0]"
      "geocode_run [Call (loc_coords fix_A) False 0] initial_geocode_state" 0 1
      "loc_coords fix_A" 0 False 0 Throws]
    C5_single_flight [of "createCacheKey (loc_coords fix_A)"
      "[Call (loc_coords fix_A) False 0]"
      "geocode_run [Call (loc_coords fix_A) False 0] initial_geocode_state" 0 1
      "loc_coords fix_C" 0 False 0 Throws]
  by (simp add: geocode_eval in_flight_for_def cache_hit_def fix_C_def)

subsection \<open>Failed lookups and absent addresses\<close>

lemma failed_request_retried:
  assumes p: "map_of (in_flight g) p = Some k" and c: "createCacheKey c = k"
    and miss: "\<not> cache_hit now' g k"
  shows "\<exists>g'. settle_request p Throws ab now g = Some (None, g')
        \<and> reverseGeocodeCache g' = reverseGeocodeCache g
        \<and> geocode_calls (snd (reverseGeocodeAsync c False now' g')) = geocode_calls g @ [c]"
proof -
  let ?g' = "g\<lparr>pendingReverseGeocodeRequests :=
                        AList.delete k (pendingReverseGeocodeRequests g),
                      in_flight := AList.delete p (in_flight g),
                      settled := settled g @ [(p, None)]\<rparr>"
  have settle: "settle_request p Throws ab now g = Some (None, ?g')"
    by (rule settle_request_unfold [OF p request_body_throws])
  from miss c have "\<not> cache_hit now' ?g' (createCacheKey c)"
    by (simp add: cache_hit_def)
  from reverseGeocodeAsync_miss [OF this]
  have "geocode_calls (snd (reverseGeocodeAsync c False now' ?g')) = geocode_calls g @ [c]"
    using c by (simp add: start_or_share_new map_of_delete_self)
  with settle show ?thesis
    by (intro exI [of _ ?g']) simp
qed

lemma absent_address_cached:
  assumes p: "map_of (in_flight g) p = Some k" and c: "createCacheKey c = k"
  shows "\<exists>g'. settle_request p (Returns []) False now g = Some (None, g')
        \<and> map_of (reverseGeocodeCache g') k = Some \<lparr>geo_address = None, geo_timestamp = now\<rparr>
        \<and> (now' - now < REVERSE_GEOCODE_CACHE_TTL \<longrightarrow>
             reverseGeocodeAsync c False now' g' = (Value None, g'))
        \<and> (\<not> now' - now < REVERSE_GEOCODE_CACHE_TTL \<longrightarrow>
             geocode_calls (snd (reverseGeocodeAsync c False now' g')) = geocode_calls g @ [c])"
proof -
  obtain v g1 where body: "request_body k (Returns []) False now g = (v, g1)"
    by (cases "request_body k (Returns []) False now g")
  from request_body_returns [OF body]
  have v: "v = None"
    and entry: "map_of (reverseGeocodeCache g1) k = Some \<lparr>geo_address = None, geo_timestamp = now\<rparr>"
    by simp_all
  note keeps = request_body_keeps [OF body]
  let ?g' = "g1\<lparr>pendingReverseGeocodeRequests :=
                        AList.delete k (pendingReverseGeocodeRequests g),
                      in_flight := AList.delete p (in_flight g),
                      settled := settled g @ [(p, None)]\<rparr>"
  have settle: "settle_request p (Returns []) False now g = Some (None, ?g')"
    using settle_request_unfold [OF p body] v by simp
  have entry': "map_of (reverseGeocodeCache ?g') (createCacheKey c)
                  = Some \<lparr>geo_address = None, geo_timestamp = now\<rparr>"
    using entry c by simp
  have hit: "reverseGeocodeAsync c False now' ?g' = (Value None, ?g')"
    if "now' - now < REVERSE_GEOCODE_CACHE_TTL"
    using reverseGeocodeAsync_hit [OF entry'] that by simp
  have expired: "geocode_calls (snd (reverseGeocodeAsync c False now' ?g')) = geocode_calls g @ [c]"
    if "\<not> now' - now < REVERSE_GEOCODE_CACHE_TTL"
  proof -
    from that entry' have "\<not> cache_hit now' ?g' (createCacheKey c)"
      by (simp add: cache_hit_def)
    from reverseGeocodeAsync_miss [OF this] show ?thesis
      using c keeps by (simp add: start_or_share_new map_of_delete_self)
  qed
  from settle entry c hit expired show ?thesis
    by (intro exI [of _ ?g']) simp
qed

text \<open>
  C10. Take a request in flight in a state reached from the empty one with a clock that
  does not go back. When its provider call throws, the request resolves with null and
  the cache is left as it was, so the next lookup for the bucket calls the provider
  again. When the provider returns no address, null is stored under the bucket with the
  time of the store; a lookup within the TTL of that time gets null at once, with no
  provider call and no change of state, and a lookup at or after the TTL calls the
  provider again.
\<close>

theorem C10_failure_retried_null_cached:
  "g = geocode_run es initial_geocode_state \<and> clock_ok t es \<and> clock_end t es \<le> now'
   \<and> map_of (in_flight g) p = Some k \<and> createCacheKey c = k \<longrightarrow>
     (\<exists>g'. settle_request p Throws ab now g = Some (None, g')
        \<and> reverseGeocodeCache g' = reverseGeocodeCache g
        \<and> geocode_calls (snd (reverseGeocodeAsync c False now' g')) = geocode_calls g @ [c])
     \<and> (\<exists>g'. settle_request p (Returns []) False now g = Some (None, g')
        \<and> map_of (reverseGeocodeCache g') k = Some \<lparr>geo_address = None, geo_timestamp = now\<rparr>
        \<and> (now' - now < REVERSE_GEOCODE_CACHE_TTL \<longrightarrow>
             reverseGeocodeAsync c False now' g' = (Value None, g'))
        \<and> (\<not> now' - now < REVERSE_GEOCODE_CACHE_TTL \<longrightarrow>
             geocode_calls (snd (reverseGeocodeAsync c False now' g')) = geocode_calls g @ [c]))"
proof (intro impI conjI; elim conjE)
  assume g: "g = geocode_run es initial_geocode_state" and ok: "clock_ok t es"
    and le: "clock_end t es \<le> now'"
    and p: "map_of (in_flight g) p = Some k" and c: "createCacheKey c = k"
  from in_flight_is_stale [OF ok le] p g have "\<not> cache_hit now' g k" by simp
  from failed_request_retried [OF p c this]
  show "\<exists>g'. settle_request p Throws ab now g = Some (None, g')
        \<and> reverseGeocodeCache g' = reverseGeocodeCache g
        \<and> geocode_calls (snd (reverseGeocodeAsync c False now' g')) = geocode_calls g @ [c]" .
next
  assume p: "map_of (in_flight g) p = Some k" and c: "createCacheKey c = k"
  from absent_address_cached [OF p c]
  show "\<exists>g'. settle_request p (Returns []) False now g = Some (None, g')
        \<and> map_of (reverseGeocodeCache g') k = Some \<lparr>geo_address = None, geo_timestamp = now\<rparr>
        \<and> (now' - now < REVERSE_GEOCODE_CACHE_TTL \<longrightarrow>
             reverseGeocodeAsync c False now' g' = (Value None, g'))
        \<and> (\<not> now' - now < REVERSE_GEOCODE_CACHE_TTL \<longrightarrow>
             geocode_calls (snd (reverseGeocodeAsync c False now' g')) = geocode_calls g @ [c])" .
qed

theorem C10_failure_retried_null_cached_witness:
  "clock_ok 0 [Call (loc_coords fix_A) False 0]
   \<and> clock_end 0 [Call (loc_coords fix_A) False 0] \<le> 10
   \<and> map_of (in_flight (geocode_run [Call (loc_coords fix_A) False 0] initial_geocode_state)) 0
     = Some (createCacheKey (loc_coords fix_A))
   \<and> (\<exists>g'. settle_request 0 Throws False 5
              (geocode_run [Call (loc_coords fix_A) False 0] initial_geocode_state)
            = Some (None, g')
          \<and> reverseGeocodeCache g' = []
          \<and> geocode_calls (snd (reverseGeocodeAsync (loc_coords fix_A) False 10 g'))
              = [loc_coords fix_A, loc_coords fix_A])
   \<and> (\<exists>g'. settle_request 0 (Returns []) False 5
              (geocode_run [Call (loc_coords fix_A) False 0] initial_geocode_state)
            = Some (None, g')
          \<and> reverseGeocodeAsync (loc_coords fix_A) False 600004 g' = (Value None, g'))
   \<and> (\<exists>g'. settle_request 0 (Returns []) False 5
              (geocode_run [Call (loc_coords fix_A) False 0] initial_geocode_state)
            = Some (None, g')
          \<and> geocode_calls (snd (reverseGeocodeAsync (loc_coords fix_A) False 600005 g'))
              = [loc_coords fix_A, loc_coords fix_A])"
  using C10_failure_retried_null_cached [of
      "geocode_run [Call (loc_coords fix_A) False 0] initial_geocode_state"
      "[Call (loc_coords fix_A) False 0]" 0 10 0
      "createCacheKey (loc_coords fix_A)" "loc_coords fix_A" False 5]
    C10_failure_retried_null_cached [of
      "geocode_run [Call (loc_coords fix_A) False 0] initial_geocode_state"
      "[Call (loc_coords fix_A) False 0]" 0 600004 0
      "createCacheKey (loc_coords fix_A)" "loc_coords fix_A" False 5]
    C10_failure_retried_null_cached [of
      "geocode_run [Call (loc_coords fix_A) False 0] initial_geocode_state"
      "[Call (loc_coords fix_A) False 0]" 0 600005 0
      "createCacheKey (loc_coords fix_A)" "loc_coords fix_A" False 5]
  by (simp add: geocode_eval cache_hit_def)

end
